theory Spec2Isabelle
  imports Main "HOL-Library.Multiset"
begin

section \<open>Text operations of the Python runtime used by the service\<close>

text \<open>
  A Python \<open>str\<close> is modelled as a \<open>string\<close> whose characters are the code points
  below 256. On that range \<open>\d\<close> of the \<open>re\<close> module is exactly the ASCII digits and
  \<open>str.isspace\<close> is exactly the set given by \<open>isspace\<close> below.
\<close>

definition LF :: char where
  "LF = CHR 0x0A"

definition CR :: char where
  "CR = CHR 0x0D"

definition isdigit :: "char \<Rightarrow> bool" where
  "isdigit c \<longleftrightarrow> (48::nat) \<le> of_char c \<and> of_char c \<le> (57::nat)"

definition isspace :: "char \<Rightarrow> bool" where
  "isspace c \<longleftrightarrow>
     (let n = (of_char c :: nat)
      in (9 \<le> n \<and> n \<le> 13) \<or> (28 \<le> n \<and> n \<le> 32) \<or> n = 133 \<or> n = 160)"

text \<open>\<open>os.path.basename\<close> (posixpath): everything after the last slash.\<close>

definition basename :: "string \<Rightarrow> string" where
  "basename p = rev (takeWhile (\<lambda>c. c \<noteq> CHR ''/'') (rev p))"

subsection \<open>The fragment of \<open>re\<close> that the filename pattern needs\<close>

datatype atom = Chr char | Digit

datatype item = BOL | EOL | One atom | Many1 atom

fun atom_ok :: "atom \<Rightarrow> char \<Rightarrow> bool" where
  "atom_ok (Chr a) c = (c = a)"
| "atom_ok Digit c = isdigit c"

text \<open>
  \<open>re_at items pos s\<close>: the items match at offset \<open>pos\<close>, where \<open>s\<close> is the rest of the
  subject from that offset. \<open>^\<close> holds at offset 0. Without \<open>re.MULTILINE\<close>, \<open>$\<close> holds at
  the end of the subject and also just before a line feed that ends the subject.
  \<open>+\<close> is tried greedily and gives characters back.
\<close>

fun re_at :: "item list \<Rightarrow> nat \<Rightarrow> string \<Rightarrow> bool" where
  "re_at [] pos s = True"
| "re_at (BOL # is) pos s = (pos = 0 \<and> re_at is pos s)"
| "re_at (EOL # is) pos s = ((s = [] \<or> s = [LF]) \<and> re_at is pos s)"
| "re_at (One a # is) pos [] = False"
| "re_at (One a # is) pos (c # cs) = (atom_ok a c \<and> re_at is (Suc pos) cs)"
| "re_at (Many1 a # is) pos [] = False"
| "re_at (Many1 a # is) pos (c # cs) =
     (atom_ok a c \<and> (re_at (Many1 a # is) (Suc pos) cs \<or> re_at is (Suc pos) cs))"

text \<open>\<open>re.match\<close> tries the pattern at the start of the subject only.\<close>

definition re_match :: "item list \<Rightarrow> string \<Rightarrow> bool" where
  "re_match items s = re_at items 0 s"

text \<open>The pattern \<open>r'^test_\d+\.txt$'\<close> of \<open>ObserverWard.try_size\<close>.\<close>

definition test_pattern :: "item list" where
  "test_pattern =
     [BOL] @ map (One \<circ> Chr) ''test_'' @ [Many1 Digit] @ map (One \<circ> Chr) ''.txt'' @ [EOL]"

subsection \<open>Exceptions\<close>

text \<open>The exceptions the service can meet, each with the text \<open>str(e)\<close> gives.\<close>

datatype exn =
  Empty
  | ValueError string
  | TypeError string
  | OSError string
  | UnicodeDecodeError string
  | IntegrityError string
  | OverflowError string
  | OperationalError string

fun str :: "exn \<Rightarrow> string" where
  "str Empty = []"
| "str (ValueError m) = m"
| "str (TypeError m) = m"
| "str (OSError m) = m"
| "str (UnicodeDecodeError m) = m"
| "str (IntegrityError m) = m"
| "str (OverflowError m) = m"
| "str (OperationalError m) = m"

subsection \<open>Reading a text file\<close>

text \<open>Universal newlines of text mode: \<open>\r\n\<close> and a lone \<open>\r\<close> are read as \<open>\n\<close>.\<close>

fun universal_newlines :: "string \<Rightarrow> string" where
  "universal_newlines [] = []"
| "universal_newlines [c] = [if c = CR then LF else c]"
| "universal_newlines (c # d # cs) =
     (if c = CR \<and> d = LF then LF # universal_newlines cs
      else if c = CR then LF # universal_newlines (d # cs)
      else c # universal_newlines (d # cs))"

text \<open>Lines keep their line feed; a last line without one is a line too.\<close>

fun split_lines :: "string \<Rightarrow> string \<Rightarrow> string list" where
  "split_lines cur [] = (if cur = [] then [] else [cur])"
| "split_lines cur (c # cs) =
     (if c = LF then (cur @ [c]) # split_lines [] cs else split_lines (cur @ [c]) cs)"

text \<open>\<open>str.split()\<close> without a separator: the maximal runs of non-whitespace.\<close>

fun split_ws :: "string \<Rightarrow> string \<Rightarrow> string list" where
  "split_ws cur [] = (if cur = [] then [] else [cur])"
| "split_ws cur (c # cs) =
     (if isspace c then (if cur = [] then split_ws [] cs else cur # split_ws [] cs)
      else split_ws (cur @ [c]) cs)"

definition split :: "string \<Rightarrow> string list" where
  "split s = split_ws [] s"

text \<open>
  What the file system holds at a path, as far as \<open>open(path, 'r', encoding='utf-8')\<close>
  and reading are concerned: opening raises an \<open>OSError\<close> with a message, decoding raises
  with a message, or the decoded text.
\<close>

datatype file_entry = Open_fails string | Decode_fails string | Text string

text \<open>An open text file: its decoded content, or the decoding error, and the read offset.\<close>

record text_file =
  content :: "string + string"
  offset :: nat

definition open_r :: "(string \<Rightarrow> file_entry) \<Rightarrow> string option \<Rightarrow> exn + text_file" where
  "open_r fs path =
     (case path of
        None \<Rightarrow> Inl (TypeError ''expected str, bytes or os.PathLike object, not NoneType'')
      | Some p \<Rightarrow>
          (case fs p of
             Open_fails msg \<Rightarrow> Inl (OSError msg)
           | Decode_fails msg \<Rightarrow> Inr \<lparr>content = Inl msg, offset = 0\<rparr>
           | Text t \<Rightarrow> Inr \<lparr>content = Inr (universal_newlines t), offset = 0\<rparr>))"

text \<open>\<open>f.read()\<close>: the text from the offset to the end; the offset moves to the end.\<close>

definition read :: "text_file \<Rightarrow> exn + (string \<times> text_file)" where
  "read f =
     (case content f of
        Inl msg \<Rightarrow> Inl (UnicodeDecodeError msg)
      | Inr t \<Rightarrow> Inr (drop (offset f) t, f\<lparr>offset := length t\<rparr>))"

text \<open>\<open>f.readlines()\<close>: the lines from the offset to the end; the offset moves to the end.\<close>

definition readlines :: "text_file \<Rightarrow> exn + (string list \<times> text_file)" where
  "readlines f =
     (case content f of
        Inl msg \<Rightarrow> Inl (UnicodeDecodeError msg)
      | Inr t \<Rightarrow> Inr (split_lines [] (drop (offset f) t), f\<lparr>offset := length t\<rparr>))"

section \<open>The result store: table \<open>files\<close>\<close>

datatype column =
  Col_id | Col_path | Col_status | Col_lines | Col_word_count | Col_error
  | Col_created_at | Col_processed_at

fun column_name :: "column \<Rightarrow> string" where
  "column_name Col_id = ''id''"
| "column_name Col_path = ''path''"
| "column_name Col_status = ''status''"
| "column_name Col_lines = ''lines''"
| "column_name Col_word_count = ''word_count''"
| "column_name Col_error = ''error''"
| "column_name Col_created_at = ''created_at''"
| "column_name Col_processed_at = ''processed_at''"

datatype sqlval = Null | Int_val int | Text_val string

record file_row =
  row_id :: nat
  path :: "string option"
  status :: string
  lines :: "int option"
  word_count :: "int option"
  error :: "string option"
  created_at :: "string option"
  processed_at :: "string option"

text \<open>
  A table: the columns that carry a uniqueness constraint, the rows in insertion order,
  and the largest row id handed out so far (\<open>sqlite_sequence\<close>, kept by AUTOINCREMENT).
\<close>

record files_table =
  unique_columns :: "column list"
  table_rows :: "file_row list"
  seq :: nat

text \<open>
  \<open>CREATE TABLE IF NOT EXISTS files (id INTEGER PRIMARY KEY AUTOINCREMENT, path TEXT, ...)\<close>:
  a table that exists is left as it is; a new one is empty and its only constraint is the
  primary key on \<open>id\<close>.
\<close>

definition init_database :: "files_table option \<Rightarrow> files_table" where
  "init_database existing =
     (case existing of
        Some t \<Rightarrow> t
      | None \<Rightarrow> \<lparr>unique_columns = [Col_id], table_rows = [], seq = 0\<rparr>)"

definition opt_text :: "string option \<Rightarrow> sqlval" where
  "opt_text v = (case v of None \<Rightarrow> Null | Some s \<Rightarrow> Text_val s)"

definition opt_int :: "int option \<Rightarrow> sqlval" where
  "opt_int v = (case v of None \<Rightarrow> Null | Some i \<Rightarrow> Int_val i)"

fun column_value :: "column \<Rightarrow> file_row \<Rightarrow> sqlval" where
  "column_value Col_id r = Int_val (int (row_id r))"
| "column_value Col_path r = opt_text (path r)"
| "column_value Col_status r = Text_val (status r)"
| "column_value Col_lines r = opt_int (lines r)"
| "column_value Col_word_count r = opt_int (word_count r)"
| "column_value Col_error r = opt_text (error r)"
| "column_value Col_created_at r = opt_text (created_at r)"
| "column_value Col_processed_at r = opt_text (processed_at r)"

text \<open>A uniqueness constraint is violated by an equal value that is not NULL.\<close>

definition violates :: "file_row list \<Rightarrow> file_row \<Rightarrow> column \<Rightarrow> bool" where
  "violates rs r c \<longleftrightarrow>
     column_value c r \<noteq> Null \<and> column_value c r \<in> set (map (column_value c) rs)"

text \<open>AUTOINCREMENT: one more than the largest row id ever used.\<close>

definition next_rowid :: "files_table \<Rightarrow> nat" where
  "next_rowid t = Suc (fold max (map row_id (table_rows t)) (seq t))"

text \<open>
  A row id is a 64-bit signed integer. Once the largest one has been used, AUTOINCREMENT
  has no id left and the INSERT raises \<open>sqlite3.OperationalError\<close>.
\<close>

definition max_rowid :: int where
  "max_rowid = 2 ^ 63 - 1"

definition database_full :: exn where
  "database_full = OperationalError ''database or disk is full''"

text \<open>
  A Python \<open>int\<close> is bound to a statement as a 64-bit signed integer; a larger one raises
  \<open>OverflowError\<close>. \<open>None\<close> is bound as NULL.
\<close>

definition bindable :: "int option \<Rightarrow> bool" where
  "bindable v = (case v of None \<Rightarrow> True | Some i \<Rightarrow> - (2 ^ 63) \<le> i \<and> i < 2 ^ 63)"

definition too_large :: exn where
  "too_large = OverflowError ''Python int too large to convert to SQLite INTEGER''"

text \<open>
  \<open>INSERT INTO files (path, status, lines, word_count, error, created_at, processed_at)
  VALUES (?, ?, ?, ?, ?, ?, ?)\<close>
\<close>

definition sql_insert ::
  "string option \<Rightarrow> string \<Rightarrow> int option \<Rightarrow> int option \<Rightarrow> string option \<Rightarrow>
   string option \<Rightarrow> string option \<Rightarrow> files_table \<Rightarrow> exn + files_table" where
  "sql_insert p st ls wc err created processed t =
     (if \<not> bindable ls \<or> \<not> bindable wc then Inl too_large
      else if max_rowid < int (next_rowid t) then Inl database_full
      else
        let r = \<lparr>row_id = next_rowid t, path = p, status = st, lines = ls, word_count = wc,
                 error = err, created_at = created, processed_at = processed\<rparr>
        in case find (violates (table_rows t) r) (unique_columns t) of
             Some c \<Rightarrow> Inl (IntegrityError (''UNIQUE constraint failed: files.'' @ column_name c))
           | None \<Rightarrow> Inr (t\<lparr>table_rows := table_rows t @ [r], seq := row_id r\<rparr>))"

text \<open>A column keeps its constraint when its values that are not NULL are all different.\<close>

definition keeps_unique :: "file_row list \<Rightarrow> column \<Rightarrow> bool" where
  "keeps_unique rs c = distinct (filter (\<lambda>v. v \<noteq> Null) (map (column_value c) rs))"

text \<open>
  \<open>UPDATE files SET status = ?, lines = ?, word_count = ?, error = ?, processed_at = ?
  WHERE path = ?\<close>. A comparison with NULL selects no row. The statement changes nothing
  and raises when the rows it would leave break a uniqueness constraint.
\<close>

definition set_outcome ::
  "string \<Rightarrow> int option \<Rightarrow> int option \<Rightarrow> string option \<Rightarrow> string option \<Rightarrow>
   file_row \<Rightarrow> file_row" where
  "set_outcome st ls wc err processed r =
     r\<lparr>status := st, lines := ls, word_count := wc, error := err, processed_at := processed\<rparr>"

definition sql_update ::
  "string \<Rightarrow> int option \<Rightarrow> int option \<Rightarrow> string option \<Rightarrow> string option \<Rightarrow>
   string option \<Rightarrow> files_table \<Rightarrow> exn + files_table" where
  "sql_update st ls wc err processed p t =
     (if \<not> bindable ls \<or> \<not> bindable wc then Inl too_large
      else
        let rs = map (\<lambda>r. if p \<noteq> None \<and> path r = p
                           then set_outcome st ls wc err processed r else r)
                     (table_rows t)
        in case find (\<lambda>c. \<not> keeps_unique rs c) (unique_columns t) of
             Some c \<Rightarrow> Inl (IntegrityError (''UNIQUE constraint failed: files.'' @ column_name c))
           | None \<Rightarrow> Inr (t\<lparr>table_rows := rs\<rparr>))"

text \<open>
  \<open>inserting(path, status, lines=None, word_count=None, error=None)\<close>; \<open>now\<close> is the
  value of \<open>datetime.now().isoformat()\<close> read at the call. Only \<open>sqlite3.IntegrityError\<close>
  is caught.
\<close>

definition inserting ::
  "string \<Rightarrow> string option \<Rightarrow> string \<Rightarrow> int option \<Rightarrow> int option \<Rightarrow> string option \<Rightarrow>
   files_table \<Rightarrow> exn + files_table" where
  "inserting now p st ls wc err t =
     (case sql_insert p st ls wc err (Some now) (if st = ''OK'' then Some now else None) t of
        Inr t' \<Rightarrow> Inr t'
      | Inl (IntegrityError m) \<Rightarrow>
          sql_update st ls wc err (if st = ''OK'' then Some now else None) p t
      | Inl e \<Rightarrow> Inl e)"

text \<open>The dictionary built for each row by \<open>last_files\<close>.\<close>

record file_dict =
  d_path :: "string option"
  d_status :: string
  d_lines :: "int option"
  d_word_count :: "int option"
  d_error :: "string option"
  d_created_at :: "string option"
  d_processed_at :: "string option"

definition row_dict :: "file_row \<Rightarrow> file_dict" where
  "row_dict r =
     \<lparr>d_path = path r, d_status = status r, d_lines = lines r, d_word_count = word_count r,
      d_error = error r, d_created_at = created_at r, d_processed_at = processed_at r\<rparr>"

text \<open>\<open>ORDER BY id DESC\<close>\<close>

definition order_by_id_desc :: "file_row list \<Rightarrow> file_row list" where
  "order_by_id_desc rs = sort_key (\<lambda>r. - int (row_id r)) rs"

text \<open>\<open>LIMIT ?\<close>: a negative limit means no limit.\<close>

definition sql_limit :: "int \<Rightarrow> 'a list \<Rightarrow> 'a list" where
  "sql_limit n xs = (if n < 0 then xs else take (nat n) xs)"

text \<open>
  \<open>last_files(limit)\<close>:
  \<open>SELECT path, status, lines, word_count, error, created_at, processed_at
  FROM files ORDER BY id DESC LIMIT ?\<close>
\<close>

definition last_files :: "int \<Rightarrow> files_table \<Rightarrow> exn + file_dict list" where
  "last_files limit t =
     (if \<not> bindable (Some limit) then Inl too_large
      else Inr (map row_dict (sql_limit limit (order_by_id_desc (table_rows t)))))"

text \<open>\<open>stats()\<close>: three \<open>SELECT COUNT(*)\<close>.\<close>

record counts =
  total :: nat
  ok :: nat
  failed :: nat

definition stats :: "files_table \<Rightarrow> counts" where
  "stats t =
     \<lparr>total = length (table_rows t),
      ok = length (filter (\<lambda>r. status r = ''OK'') (table_rows t)),
      failed = length (filter (\<lambda>r. status r = ''FAILED'') (table_rows t))\<rparr>"

section \<open>The work queue\<close>

text \<open>
  \<open>queue.Queue()\<close>: the pending entries, oldest first, and the count of entries put and not
  yet acknowledged by \<open>task_done\<close>. An entry is a path or \<open>None\<close>.
\<close>

record work_queue =
  entries :: "string option list"
  unfinished_tasks :: nat

definition put :: "string option \<Rightarrow> work_queue \<Rightarrow> work_queue" where
  "put x q = q\<lparr>entries := entries q @ [x], unfinished_tasks := Suc (unfinished_tasks q)\<rparr>"

text \<open>\<open>get(timeout=5)\<close> on a queue that stays empty for the timeout raises \<open>Empty\<close>.\<close>

definition get :: "work_queue \<Rightarrow> exn + (string option \<times> work_queue)" where
  "get q =
     (case entries q of
        [] \<Rightarrow> Inl Empty
      | x # xs \<Rightarrow> Inr (x, q\<lparr>entries := xs\<rparr>))"

definition task_done :: "work_queue \<Rightarrow> exn + work_queue" where
  "task_done q =
     (if unfinished_tasks q = 0 then Inl (ValueError ''task_done() called too many times'')
      else Inr (q\<lparr>unfinished_tasks := unfinished_tasks q - 1\<rparr>))"

definition qsize :: "work_queue \<Rightarrow> nat" where
  "qsize q = length (entries q)"

section \<open>The service state\<close>

record service =
  file_queue :: work_queue
  files_db :: files_table

section \<open>The event handler \<open>ObserverWard\<close>\<close>

text \<open>
  \<open>os.path.getsize\<close> against one view of the directory: the size in bytes, or the message
  of the \<open>OSError\<close> it raises.
\<close>

definition getsize :: "(string \<Rightarrow> string + nat) \<Rightarrow> string \<Rightarrow> exn + nat" where
  "getsize view p = (case view p of Inl msg \<Rightarrow> Inl (OSError msg) | Inr n \<Rightarrow> Inr n)"

text \<open>The directory as seen before and after \<open>time.sleep(2)\<close>.\<close>

record probe =
  before_sleep :: "string \<Rightarrow> string + nat"
  after_sleep :: "string \<Rightarrow> string + nat"

definition try_size :: "probe \<Rightarrow> string \<Rightarrow> service \<Rightarrow> service" where
  "try_size pr p s =
     (if \<not> re_match test_pattern (basename p) then s
      else
        case getsize (before_sleep pr) p of
          Inl e \<Rightarrow> s
        | Inr start_size \<Rightarrow>
            (case getsize (after_sleep pr) p of
               Inl e \<Rightarrow> s
             | Inr end_size \<Rightarrow>
                 if start_size \<noteq> end_size then s
                 else s\<lparr>file_queue := put (Some p) (file_queue s)\<rparr>))"

datatype fs_event =
  Created string bool
  | Deleted string bool
  | Moved string string bool

fun on_event :: "probe \<Rightarrow> fs_event \<Rightarrow> service \<Rightarrow> service" where
  "on_event pr (Created src_path is_directory) s =
     (if \<not> is_directory then try_size pr src_path s else s)"
| "on_event pr (Deleted src_path is_directory) s = s"
| "on_event pr (Moved src_path dest_path is_directory) s =
     (if \<not> is_directory then try_size pr dest_path s else s)"

section \<open>The worker\<close>

text \<open>What one pass of the loop reads from outside: the clock and the files.\<close>

record world =
  clock :: string
  files :: "string \<Rightarrow> file_entry"

text \<open>The \<open>with open(...)\<close> block: the two counts, or the exception raised inside it.\<close>

definition count_file :: "(string \<Rightarrow> file_entry) \<Rightarrow> string option \<Rightarrow> exn + (int \<times> int)" where
  "count_file fs p =
     (case open_r fs p of
        Inl e \<Rightarrow> Inl e
      | Inr f \<Rightarrow>
          (case readlines f of
             Inl e \<Rightarrow> Inl e
           | Inr (ls, f1) \<Rightarrow>
               (case read f1 of
                  Inl e \<Rightarrow> Inl e
                | Inr (rest, f2) \<Rightarrow> Inr (int (length ls), int (length (split rest))))))"

text \<open>\<open>file_queue.task_done()\<close> at the end of a pass; if it raises, the pass ends there.\<close>

definition acknowledge :: "service \<Rightarrow> service" where
  "acknowledge s =
     (case task_done (file_queue s) of
        Inl e \<Rightarrow> s
      | Inr q \<Rightarrow> s\<lparr>file_queue := q\<rparr>)"

text \<open>The inner \<open>try\<close> block: count, then record the path as OK.\<close>

definition process_ok :: "world \<Rightarrow> string option \<Rightarrow> service \<Rightarrow> exn + service" where
  "process_ok w p s =
     (case count_file (files w) p of
        Inl e \<Rightarrow> Inl e
      | Inr (n_lines, n_words) \<Rightarrow>
          (case inserting (clock w) p ''OK'' (Some n_lines) (Some n_words) None (files_db s) of
             Inl e \<Rightarrow> Inl e
           | Inr t \<Rightarrow> Inr (s\<lparr>files_db := t\<rparr>)))"

text \<open>The inner \<open>except Exception as e\<close> block: record the path as FAILED.\<close>

definition process_failed :: "world \<Rightarrow> string option \<Rightarrow> exn \<Rightarrow> service \<Rightarrow> service" where
  "process_failed w p e s =
     (case inserting (clock w) p ''FAILED'' None None (Some (str e)) (files_db s) of
        Inl e' \<Rightarrow> s
      | Inr t \<Rightarrow> acknowledge (s\<lparr>files_db := t\<rparr>))"

text \<open>
  One pass of \<open>while True\<close> in \<open>worker\<close>. Every way through the body ends in \<open>continue\<close> or
  at the end of the body: there is no \<open>break\<close> and no \<open>return\<close>.
\<close>

definition worker_pass :: "world \<Rightarrow> service \<Rightarrow> service" where
  "worker_pass w s =
     (case get (file_queue s) of
        Inl e \<Rightarrow> s
      | Inr (p, q) \<Rightarrow>
          (let s1 = s\<lparr>file_queue := q\<rparr>
           in case process_ok w p s1 of
                Inr s2 \<Rightarrow> acknowledge s2
              | Inl e \<Rightarrow> process_failed w p e s1))"

text \<open>
  \<open>worker()\<close>: the loop, with the world seen at each pass. The result is the state in which
  the function returns; \<open>None\<close> means that it never returns.
\<close>

partial_function (option) worker :: "nat \<Rightarrow> (nat \<Rightarrow> world) \<Rightarrow> service \<Rightarrow> service option" where
  "worker i ws s = worker (Suc i) ws (worker_pass (ws i) s)"

text \<open>The state after the first \<open>n\<close> passes of the loop.\<close>

fun worker_passes :: "nat \<Rightarrow> (nat \<Rightarrow> world) \<Rightarrow> service \<Rightarrow> service" where
  "worker_passes 0 ws s = s"
| "worker_passes (Suc n) ws s = worker_pass (ws n) (worker_passes n ws s)"

text \<open>The shutdown block of \<open>__main__\<close> up to \<open>worker_thread.join()\<close>: the sentinel is queued.\<close>

definition shutdown :: "service \<Rightarrow> service" where
  "shutdown s = s\<lparr>file_queue := put None (file_queue s)\<rparr>"

section \<open>Sequences of calls to the store\<close>

record upsert_call =
  c_now :: string
  c_path :: "string option"
  c_status :: string
  c_lines :: "int option"
  c_word_count :: "int option"
  c_error :: "string option"

text \<open>A call that raises leaves the table as it was.\<close>

definition upsert :: "files_table \<Rightarrow> upsert_call \<Rightarrow> files_table" where
  "upsert t c =
     (case inserting (c_now c) (c_path c) (c_status c) (c_lines c) (c_word_count c) (c_error c) t of
        Inl e \<Rightarrow> t
      | Inr t' \<Rightarrow> t')"

definition upserts :: "upsert_call list \<Rightarrow> files_table \<Rightarrow> files_table" where
  "upserts cs t = foldl upsert t cs"

section \<open>The service at start-up\<close>

definition empty_queue :: work_queue where
  "empty_queue = \<lparr>entries = [], unfinished_tasks = 0\<rparr>"

text \<open>\<open>file_queue = queue.Queue()\<close> and \<open>init_database()\<close> with no \<open>files.db\<close> yet.\<close>

definition started :: service where
  "started = \<lparr>file_queue = empty_queue, files_db = init_database None\<rparr>"

section \<open>The worker loop\<close>

lemma worker_never_Some: "worker i ws s = Some r \<Longrightarrow> False"
  by (rule worker.raw_induct[where P = "\<lambda>_ _ _ _. False"]) blast+

lemma worker_pass_sentinel:
  "worker_pass w (shutdown started) =
     \<lparr>file_queue = empty_queue,
      files_db =
        \<lparr>unique_columns = [Col_id],
         table_rows =
           [\<lparr>row_id = 1, path = None, status = ''FAILED'', lines = None, word_count = None,
             error = Some ''expected str, bytes or os.PathLike object, not NoneType'',
             created_at = Some (clock w), processed_at = None\<rparr>],
         seq = 1\<rparr>\<rparr>"
  by (simp add: worker_pass_def shutdown_def started_def empty_queue_def put_def get_def
      process_ok_def count_file_def open_r_def process_failed_def inserting_def sql_insert_def
      bindable_def init_database_def violates_def next_rowid_def acknowledge_def task_done_def
      max_rowid_def)

text \<open>
  C3. Once the shutdown block has put the sentinel \<open>None\<close> on the queue, \<open>worker\<close> still
  never returns, from whatever state and whatever the files and the clock are: the loop has
  no exit. (\<open>worker_pass_sentinel\<close> shows what the pass that dequeues the sentinel does:
  it is opened like a path, \<open>open(None)\<close> raises, and a FAILED row with a NULL path is
  written.)
\<close>

theorem worker_never_returns: "worker i ws (shutdown s) = None"
  using worker_never_Some [of i ws "shutdown s"] by (cases "worker i ws (shutdown s)") auto

section \<open>Counting lines and words\<close>

lemma count_file_words: "count_file fs p = Inr (l, w) \<Longrightarrow> w = 0"
  by (auto simp: count_file_def readlines_def read_def split_def split: sum.splits prod.splits)

text \<open>
  C2. The file \<open>test_1.txt\<close> holds \<open>a b\nc\n\<close> and is on the queue. The pass of the worker
  that takes it writes an OK row with \<open>lines = 2\<close> and \<open>word_count = 0\<close>: \<open>f.read()\<close> comes
  after \<open>f.readlines()\<close> has read the file to its end, so it returns the empty text.
\<close>

theorem worker_scenario_counts:
  "worker_pass \<lparr>clock = ''2024-01-01T00:00:00'', files = (\<lambda>p. Text ''a b\<newline>c\<newline>'')\<rparr>
     (started\<lparr>file_queue := put (Some ''test_1.txt'') empty_queue\<rparr>)
   = \<lparr>file_queue = empty_queue,
      files_db =
        \<lparr>unique_columns = [Col_id],
         table_rows =
           [\<lparr>row_id = 1, path = Some ''test_1.txt'', status = ''OK'', lines = Some 2,
             word_count = Some 0, error = None, created_at = Some ''2024-01-01T00:00:00'',
             processed_at = Some ''2024-01-01T00:00:00''\<rparr>],
         seq = 1\<rparr>\<rparr>"
  by code_simp

section \<open>The event handler\<close>

subsection \<open>What the filename pattern accepts\<close>

lemma re_at_One:
  "re_at (One a # is) pos s \<longleftrightarrow> (\<exists>c cs. s = c # cs \<and> atom_ok a c \<and> re_at is (Suc pos) cs)"
  by (cases s) auto

lemma re_at_Many1:
  "re_at (Many1 a # is) pos s \<longleftrightarrow>
     (\<exists>ds rest. ds \<noteq> [] \<and> (\<forall>d\<in>set ds. atom_ok a d) \<and> s = ds @ rest \<and>
              re_at is (pos + length ds) rest)"
proof (induction s arbitrary: pos)
  case Nil
  show ?case by simp
next
  case (Cons c cs)
  show ?case
  proof
    assume l: "re_at (Many1 a # is) pos (c # cs)"
    then have c: "atom_ok a c" by simp
    from l consider "re_at (Many1 a # is) (Suc pos) cs" | "re_at is (Suc pos) cs" by auto
    then show "\<exists>ds rest. ds \<noteq> [] \<and> (\<forall>d\<in>set ds. atom_ok a d) \<and> c # cs = ds @ rest \<and>
              re_at is (pos + length ds) rest"
    proof cases
      case 1
      with Cons.IH [of "Suc pos"] obtain ds rest where
        d: "ds \<noteq> []" "\<forall>d\<in>set ds. atom_ok a d" "cs = ds @ rest" "re_at is (Suc pos + length ds) rest"
        by blast
      show ?thesis
        by (rule exI [of _ "c # ds"], rule exI [of _ rest]) (use c d in simp)
    next
      case 2
      show ?thesis
        by (rule exI [of _ "[c]"], rule exI [of _ cs]) (use c 2 in simp)
    qed
  next
    assume "\<exists>ds rest. ds \<noteq> [] \<and> (\<forall>d\<in>set ds. atom_ok a d) \<and> c # cs = ds @ rest \<and>
              re_at is (pos + length ds) rest"
    then obtain ds rest where
      d: "ds \<noteq> []" "\<forall>d\<in>set ds. atom_ok a d" "c # cs = ds @ rest" "re_at is (pos + length ds) rest"
      by blast
    from d(1,3) obtain ds' where ds: "ds = c # ds'" "cs = ds' @ rest"
      by (cases ds) auto
    show "re_at (Many1 a # is) pos (c # cs)"
    proof (cases "ds' = []")
      case True
      with d ds show ?thesis by simp
    next
      case False
      have "re_at (Many1 a # is) (Suc pos) cs"
        unfolding Cons.IH [of "Suc pos"]
        by (rule exI [of _ ds'], rule exI [of _ rest]) (use False d ds in simp)
      with d ds show ?thesis by simp
    qed
  qed
qed

lemma re_at_suffix:
  "re_at (map (One \<circ> Chr) ''.txt'' @ [EOL]) pos rest \<longleftrightarrow> rest = ''.txt'' \<or> rest = ''.txt'' @ [LF]"
  by (auto simp: re_at_One)

lemma re_at_digits_suffix:
  "re_at (Many1 Digit # map (One \<circ> Chr) ''.txt'' @ [EOL]) pos cs \<longleftrightarrow>
     (\<exists>ds. ds \<noteq> [] \<and> (\<forall>d\<in>set ds. isdigit d) \<and>
           (cs = ds @ ''.txt'' \<or> cs = ds @ ''.txt'' @ [LF]))"
  unfolding re_at_Many1 re_at_suffix by auto

lemma test_pattern_language:
  "re_match test_pattern s \<longleftrightarrow>
     (\<exists>ds. ds \<noteq> [] \<and> (\<forall>d\<in>set ds. isdigit d) \<and>
           (s = ''test_'' @ ds @ ''.txt'' \<or> s = ''test_'' @ ds @ ''.txt'' @ [LF]))"
proof -
  have "re_match test_pattern s \<longleftrightarrow>
      (\<exists>cs. s = ''test_'' @ cs \<and>
            re_at (Many1 Digit # map (One \<circ> Chr) ''.txt'' @ [EOL]) 5 cs)"
    unfolding re_match_def test_pattern_def
    by (auto simp: re_at_One eval_nat_numeral simp del: re_at.simps(5,7))
  then show ?thesis
    unfolding re_at_digits_suffix by auto
qed

lemma try_size_rejects: "\<not> re_match test_pattern (basename p) \<Longrightarrow> try_size pr p s = s"
  by (simp add: try_size_def)

subsection \<open>Unstable files and a trailing line feed\<close>

text \<open>
  C5. A path that passes the filename filter and whose size before the sleep differs from
  its size after it leaves the service as it was: nothing is queued, the table is not
  touched, and the state holds nothing else that could trigger a later check.
\<close>

theorem try_size_unstable:
  "re_match test_pattern (basename p) \<Longrightarrow> before_sleep pr p = Inr a \<Longrightarrow>
   after_sleep pr p = Inr b \<Longrightarrow> a \<noteq> b \<Longrightarrow> try_size pr p s = s"
  by (simp add: try_size_def getsize_def)

theorem try_size_unstable_witness:
  "re_match test_pattern (basename ''/watch/test_2.txt'') \<and>
   try_size \<lparr>before_sleep = (\<lambda>p. Inr 3), after_sleep = (\<lambda>p. Inr 5)\<rparr>
     ''/watch/test_2.txt'' started = started"
proof -
  have m: "re_match test_pattern (basename ''/watch/test_2.txt'')"
    by code_simp
  show ?thesis
    using m try_size_unstable [of "''/watch/test_2.txt''"
        "\<lparr>before_sleep = (\<lambda>p. Inr 3), after_sleep = (\<lambda>p. Inr 5)\<rparr>" 3 5 started]
    by simp
qed

text \<open>
  C4. A file whose name is \<open>test_1.txt\<close> followed by a line feed is not of the form
  \<open>test_<digits>.txt\<close>, yet \<open>$\<close> accepts the line feed: the creation event queues the path
  and the next pass of the worker writes a row for it.
\<close>

theorem trailing_newline_is_ingested:
  "worker_pass \<lparr>clock = ''2024-01-01T00:00:00'', files = (\<lambda>p. Text ''x'')\<rparr>
     (on_event \<lparr>before_sleep = (\<lambda>p. Inr 1), after_sleep = (\<lambda>p. Inr 1)\<rparr>
        (Created ''/watch/test_1.txt\<newline>'' False) started)
   = \<lparr>file_queue = empty_queue,
      files_db =
        \<lparr>unique_columns = [Col_id],
         table_rows =
           [\<lparr>row_id = 1, path = Some ''/watch/test_1.txt\<newline>'', status = ''OK'',
             lines = Some 1, word_count = Some 0, error = None,
             created_at = Some ''2024-01-01T00:00:00'',
             processed_at = Some ''2024-01-01T00:00:00''\<rparr>],
         seq = 1\<rparr>\<rparr>"
  by code_simp

section \<open>The store\<close>

subsection \<open>Row ids\<close>

lemma fold_max_start: "(a::nat) \<le> fold max xs a"
proof (induction xs arbitrary: a)
  case Nil
  show ?case by simp
next
  case (Cons x xs)
  have "a \<le> max x a" by simp
  also have "max x a \<le> fold max xs (max x a)" by (rule Cons.IH)
  finally show ?case by simp
qed

lemma fold_max_member: "x \<in> set xs \<Longrightarrow> (x::nat) \<le> fold max xs a"
proof (induction xs arbitrary: a)
  case Nil
  then show ?case by simp
next
  case (Cons y ys)
  show ?case
  proof (cases "x = y")
    case True
    have "x \<le> max y a" using True by simp
    also have "max y a \<le> fold max ys (max y a)" by (rule fold_max_start)
    finally show ?thesis by simp
  next
    case False
    with Cons.prems have "x \<in> set ys" by simp
    then show ?thesis using Cons.IH by simp
  qed
qed

lemma next_rowid_above: "r \<in> set (table_rows t) \<Longrightarrow> row_id r < next_rowid t"
  using fold_max_member [of "row_id r" "map row_id (table_rows t)" "seq t"]
  by (simp add: next_rowid_def less_Suc_eq_le)

lemma primary_key_free:
  "\<not> violates (table_rows t) \<lparr>row_id = next_rowid t, path = p, status = st, lines = ls,
       word_count = wc, error = err, created_at = c, processed_at = pr\<rparr> Col_id"
proof
  assume "violates (table_rows t) \<lparr>row_id = next_rowid t, path = p, status = st, lines = ls,
       word_count = wc, error = err, created_at = c, processed_at = pr\<rparr> Col_id"
  then obtain r where r: "r \<in> set (table_rows t)" "row_id r = next_rowid t"
    by (auto simp: violates_def)
  with next_rowid_above [OF r(1)] show False by simp
qed

subsection \<open>\<open>inserting\<close> on the table of \<open>init_database\<close>\<close>

lemma sql_insert_plain:
  assumes "unique_columns t = [Col_id]" "bindable ls" "bindable wc" "int (next_rowid t) \<le> max_rowid"
  shows "sql_insert p st ls wc err c pr t =
     Inr (t\<lparr>table_rows := table_rows t @
               [\<lparr>row_id = next_rowid t, path = p, status = st, lines = ls, word_count = wc,
                 error = err, created_at = c, processed_at = pr\<rparr>],
            seq := next_rowid t\<rparr>)"
  using assms primary_key_free [of t p st ls wc err c pr] by (simp add: sql_insert_def)

lemma inserting_plain:
  assumes "unique_columns t = [Col_id]" "bindable ls" "bindable wc" "int (next_rowid t) \<le> max_rowid"
  shows "inserting now p st ls wc err t =
     Inr (t\<lparr>table_rows := table_rows t @
               [\<lparr>row_id = next_rowid t, path = p, status = st, lines = ls, word_count = wc,
                 error = err, created_at = Some now,
                 processed_at = (if st = ''OK'' then Some now else None)\<rparr>],
            seq := next_rowid t\<rparr>)"
  unfolding inserting_def using sql_insert_plain [OF assms] by simp

lemma inserting_raises:
  assumes "\<not> (bindable ls \<and> bindable wc)"
  shows "inserting now p st ls wc err t = Inl too_large"
  using assms by (auto simp: inserting_def sql_insert_def too_large_def)

text \<open>
  C1. Two calls of \<open>inserting\<close> for the same path on the table that \<open>init_database\<close>
  creates leave two rows for that path: the table has no uniqueness constraint on \<open>path\<close>,
  so the INSERT never raises \<open>IntegrityError\<close> and the UPDATE is never reached.
\<close>

theorem upsert_twice_two_rows:
  "table_rows
     (upserts
        [\<lparr>c_now = ''2024-01-01T00:00:00'', c_path = Some ''test_1.txt'', c_status = ''OK'',
          c_lines = Some 2, c_word_count = Some 3, c_error = None\<rparr>,
         \<lparr>c_now = ''2024-01-01T00:00:09'', c_path = Some ''test_1.txt'', c_status = ''FAILED'',
          c_lines = None, c_word_count = None, c_error = Some ''gone''\<rparr>]
        (init_database None))
   = [\<lparr>row_id = 1, path = Some ''test_1.txt'', status = ''OK'', lines = Some 2,
       word_count = Some 3, error = None, created_at = Some ''2024-01-01T00:00:00'',
       processed_at = Some ''2024-01-01T00:00:00''\<rparr>,
      \<lparr>row_id = 2, path = Some ''test_1.txt'', status = ''FAILED'', lines = None,
       word_count = None, error = Some ''gone'', created_at = Some ''2024-01-01T00:00:09'',
       processed_at = None\<rparr>]"
  by code_simp

subsection \<open>Statuses\<close>

lemma set_outcome_status: "status (set_outcome st ls wc err pr r) = st"
  by (simp add: set_outcome_def)

lemma inserting_statuses:
  assumes "inserting now p st ls wc err t = Inr t'"
    and "r' \<in> set (table_rows t')"
  shows "r' \<in> set (table_rows t) \<or> status r' = st"
  using assms
  by (auto simp: inserting_def sql_insert_def sql_update_def Let_def set_outcome_status
      split: if_splits option.splits sum.splits exn.splits)

lemma upsert_statuses:
  assumes "r' \<in> set (table_rows (upsert t c))"
  shows "r' \<in> set (table_rows t) \<or> status r' = c_status c"
proof (cases "inserting (c_now c) (c_path c) (c_status c) (c_lines c) (c_word_count c)
    (c_error c) t")
  case (Inl e)
  with assms show ?thesis by (simp add: upsert_def)
next
  case (Inr t')
  with assms have "r' \<in> set (table_rows t')" by (simp add: upsert_def)
  with inserting_statuses [OF Inr] show ?thesis by blast
qed

lemma upserts_statuses:
  assumes "r' \<in> set (table_rows (upserts cs t))"
  shows "r' \<in> set (table_rows t) \<or> status r' \<in> c_status ` set cs"
  using assms
proof (induction cs arbitrary: t)
  case Nil
  then show ?case by (simp add: upserts_def)
next
  case (Cons c cs)
  from Cons.prems have "r' \<in> set (table_rows (upserts cs (upsert t c)))"
    by (simp add: upserts_def)
  from Cons.IH [OF this] upsert_statuses [of r' t c] show ?case by auto
qed

lemma count_two_statuses:
  "\<forall>r\<in>set rs. status r = ''OK'' \<or> status r = ''FAILED'' \<Longrightarrow>
   length rs = length (filter (\<lambda>r. status r = ''OK'') rs)
             + length (filter (\<lambda>r. status r = ''FAILED'') rs)"
  by (induction rs) auto

subsection \<open>\<open>ORDER BY id DESC\<close> on growing row ids\<close>

lemma insort_key_last:
  "\<forall>y\<in>set ys. f y < f x \<Longrightarrow> insort_key f x ys = ys @ [x]"
  for f :: "'a \<Rightarrow> int"
  by (induction ys) auto

lemma order_by_id_desc_rev:
  "sorted_wrt (<) (map row_id rs) \<Longrightarrow> order_by_id_desc rs = rev rs"
proof (induction rs)
  case Nil
  show ?case by (simp add: order_by_id_desc_def)
next
  case (Cons r rs)
  from Cons.prems have later: "\<forall>y\<in>set rs. row_id r < row_id y"
    and tl: "sorted_wrt (<) (map row_id rs)"
    by auto
  from Cons.IH [OF tl] have ih: "sort_key (\<lambda>r. - int (row_id r)) rs = rev rs"
    by (simp add: order_by_id_desc_def)
  have "insort_key (\<lambda>r. - int (row_id r)) r (rev rs) = rev rs @ [r]"
    using later by (intro insort_key_last) auto
  with ih show ?case by (simp add: order_by_id_desc_def)
qed

subsection \<open>Timestamps, frame, counts and recent records\<close>

text \<open>
  C10. When the INSERT of \<open>inserting\<close> goes through, the new row is the last one, it has the
  status of the call, its \<open>created_at\<close> is the timestamp read at the call, and its
  \<open>processed_at\<close> is that same value for status OK and NULL for any other status, FAILED
  among them.
\<close>

theorem inserting_fresh_row_timestamps:
  assumes "sql_insert p st ls wc err (Some now) (if st = ''OK'' then Some now else None) t
             = Inr t'"
  shows "inserting now p st ls wc err t = Inr t' \<and>
         (\<exists>r. table_rows t' = table_rows t @ [r] \<and> status r = st \<and>
              created_at r = Some now \<and>
              processed_at r = (if st = ''OK'' then created_at r else None))"
  using assms
  by (auto simp: inserting_def sql_insert_def Let_def split: if_splits option.splits)

theorem inserting_fresh_row_timestamps_witness:
  "sql_insert (Some ''test_1.txt'') ''OK'' (Some 2) (Some 0) None
     (Some ''2024-01-01T00:00:00'')
     (if ''OK'' = ''OK'' then Some ''2024-01-01T00:00:00'' else None) (init_database None)
   = Inr \<lparr>unique_columns = [Col_id],
          table_rows =
            [\<lparr>row_id = 1, path = Some ''test_1.txt'', status = ''OK'', lines = Some 2,
              word_count = Some 0, error = None, created_at = Some ''2024-01-01T00:00:00'',
              processed_at = Some ''2024-01-01T00:00:00''\<rparr>],
          seq = 1\<rparr>
   \<and> inserting ''2024-01-01T00:00:00'' (Some ''test_1.txt'') ''OK'' (Some 2) (Some 0) None
       (init_database None)
     = Inr \<lparr>unique_columns = [Col_id],
            table_rows =
              [\<lparr>row_id = 1, path = Some ''test_1.txt'', status = ''OK'', lines = Some 2,
                word_count = Some 0, error = None, created_at = Some ''2024-01-01T00:00:00'',
                processed_at = Some ''2024-01-01T00:00:00''\<rparr>],
            seq = 1\<rparr>"
proof -
  have h: "sql_insert (Some ''test_1.txt'') ''OK'' (Some 2) (Some 0) None
     (Some ''2024-01-01T00:00:00'')
     (if ''OK'' = ''OK'' then Some ''2024-01-01T00:00:00'' else None) (init_database None)
   = Inr \<lparr>unique_columns = [Col_id],
          table_rows =
            [\<lparr>row_id = 1, path = Some ''test_1.txt'', status = ''OK'', lines = Some 2,
              word_count = Some 0, error = None, created_at = Some ''2024-01-01T00:00:00'',
              processed_at = Some ''2024-01-01T00:00:00''\<rparr>],
          seq = 1\<rparr>"
    by (simp add: sql_insert_def bindable_def init_database_def violates_def next_rowid_def
        max_rowid_def)
  from inserting_fresh_row_timestamps [OF h] h show ?thesis by blast
qed

text \<open>
  C9. When the INSERT of \<open>inserting\<close> raises \<open>IntegrityError\<close> and the UPDATE that follows
  goes through, the table has the same rows in the same order with the same \<open>id\<close>, \<open>path\<close>
  and \<open>created_at\<close>; the rows of the given path have the call's status, lines, word_count
  and error and the new \<open>processed_at\<close>, and every other row is as it was.
\<close>

theorem inserting_update_frame:
  assumes "sql_insert p st ls wc err (Some now) (if st = ''OK'' then Some now else None) t
             = Inl (IntegrityError m)"
    and "inserting now p st ls wc err t = Inr t'"
  shows "map row_id (table_rows t') = map row_id (table_rows t) \<and>
         map path (table_rows t') = map path (table_rows t) \<and>
         map created_at (table_rows t') = map created_at (table_rows t) \<and>
         table_rows t' =
           map (\<lambda>r. if p \<noteq> None \<and> path r = p
                    then r\<lparr>status := st, lines := ls, word_count := wc, error := err,
                           processed_at := (if st = ''OK'' then Some now else None)\<rparr>
                    else r)
               (table_rows t)"
proof -
  let ?upd = "\<lambda>r. if p \<noteq> None \<and> path r = p
       then set_outcome st ls wc err (if st = ''OK'' then Some now else None) r else r"
  from assms have rows: "table_rows t' = map ?upd (table_rows t)"
    by (auto simp: inserting_def sql_update_def Let_def split: if_splits option.splits)
  have 1: "map row_id (map ?upd rs) = map row_id rs" for rs
    by (induction rs) (auto simp: set_outcome_def)
  have 2: "map path (map ?upd rs) = map path rs" for rs
    by (induction rs) (auto simp: set_outcome_def)
  have 3: "map created_at (map ?upd rs) = map created_at rs" for rs
    by (induction rs) (auto simp: set_outcome_def)
  have 4: "map ?upd rs =
           map (\<lambda>r. if p \<noteq> None \<and> path r = p
                    then r\<lparr>status := st, lines := ls, word_count := wc, error := err,
                           processed_at := (if st = ''OK'' then Some now else None)\<rparr>
                    else r) rs" for rs
    by (induction rs) (auto simp: set_outcome_def)
  show ?thesis unfolding rows using 1 2 3 4 by blast
qed

theorem inserting_update_frame_witness:
  "sql_insert (Some ''test_1.txt'') ''FAILED'' None None (Some ''gone'')
     (Some ''2024-01-01T00:00:09'')
     (if ''FAILED'' = ''OK'' then Some ''2024-01-01T00:00:09'' else None)
     \<lparr>unique_columns = [Col_id, Col_path],
      table_rows =
        [\<lparr>row_id = 1, path = Some ''test_1.txt'', status = ''OK'', lines = Some 2,
          word_count = Some 0, error = None, created_at = Some ''2024-01-01T00:00:00'',
          processed_at = Some ''2024-01-01T00:00:00''\<rparr>],
      seq = 1\<rparr>
   = Inl (IntegrityError ''UNIQUE constraint failed: files.path'')
   \<and> inserting ''2024-01-01T00:00:09'' (Some ''test_1.txt'') ''FAILED'' None None (Some ''gone'')
       \<lparr>unique_columns = [Col_id, Col_path],
        table_rows =
          [\<lparr>row_id = 1, path = Some ''test_1.txt'', status = ''OK'', lines = Some 2,
            word_count = Some 0, error = None, created_at = Some ''2024-01-01T00:00:00'',
            processed_at = Some ''2024-01-01T00:00:00''\<rparr>],
        seq = 1\<rparr>
     = Inr \<lparr>unique_columns = [Col_id, Col_path],
            table_rows =
              [\<lparr>row_id = 1, path = Some ''test_1.txt'', status = ''FAILED'', lines = None,
                word_count = None, error = Some ''gone'',
                created_at = Some ''2024-01-01T00:00:00'', processed_at = None\<rparr>],
            seq = 1\<rparr>
   \<and> map created_at
        [\<lparr>row_id = 1, path = Some ''test_1.txt'', status = ''FAILED'', lines = None,
          word_count = None, error = Some ''gone'',
          created_at = Some ''2024-01-01T00:00:00'', processed_at = None\<rparr>]
     = [Some ''2024-01-01T00:00:00'']"
proof -
  let ?t = "\<lparr>unique_columns = [Col_id, Col_path],
      table_rows =
        [\<lparr>row_id = 1, path = Some ''test_1.txt'', status = ''OK'', lines = Some 2,
          word_count = Some 0, error = None, created_at = Some ''2024-01-01T00:00:00'',
          processed_at = Some ''2024-01-01T00:00:00''\<rparr>],
      seq = 1\<rparr>"
  let ?t' = "\<lparr>unique_columns = [Col_id, Col_path],
            table_rows =
              [\<lparr>row_id = 1, path = Some ''test_1.txt'', status = ''FAILED'', lines = None,
                word_count = None, error = Some ''gone'',
                created_at = Some ''2024-01-01T00:00:00'', processed_at = None\<rparr>],
            seq = 1\<rparr>"
  have h1: "sql_insert (Some ''test_1.txt'') ''FAILED'' None None (Some ''gone'')
     (Some ''2024-01-01T00:00:09'')
     (if ''FAILED'' = ''OK'' then Some ''2024-01-01T00:00:09'' else None) ?t
   = Inl (IntegrityError ''UNIQUE constraint failed: files.path'')"
    by (simp add: sql_insert_def bindable_def violates_def next_rowid_def opt_text_def
        max_rowid_def)
  have h2: "inserting ''2024-01-01T00:00:09'' (Some ''test_1.txt'') ''FAILED'' None None
      (Some ''gone'') ?t = Inr ?t'"
    by (simp add: inserting_def sql_insert_def sql_update_def set_outcome_def keeps_unique_def
        bindable_def violates_def next_rowid_def opt_text_def max_rowid_def)
  from inserting_update_frame [OF h1 h2] h1 h2 show ?thesis by simp
qed

text \<open>
  C8. After any sequence of calls of \<open>inserting\<close> on the table that \<open>init_database\<close>
  creates, each call with status OK or FAILED, \<open>stats\<close> gives \<open>total = ok + failed\<close>.
\<close>

theorem stats_total_is_ok_plus_failed:
  assumes "\<forall>c\<in>set cs. c_status c = ''OK'' \<or> c_status c = ''FAILED''"
  shows "total (stats (upserts cs (init_database None)))
       = ok (stats (upserts cs (init_database None)))
         + failed (stats (upserts cs (init_database None)))"
proof -
  have "\<forall>r\<in>set (table_rows (upserts cs (init_database None))).
          status r = ''OK'' \<or> status r = ''FAILED''"
  proof
    fix r assume "r \<in> set (table_rows (upserts cs (init_database None)))"
    from upserts_statuses [OF this] have "status r \<in> c_status ` set cs"
      by (simp add: init_database_def)
    with assms show "status r = ''OK'' \<or> status r = ''FAILED''" by auto
  qed
  from count_two_statuses [OF this] show ?thesis by (simp add: stats_def)
qed

theorem stats_total_is_ok_plus_failed_witness:
  "stats (upserts
        [\<lparr>c_now = ''2024-01-01T00:00:00'', c_path = Some ''test_1.txt'', c_status = ''OK'',
          c_lines = Some 2, c_word_count = Some 0, c_error = None\<rparr>,
         \<lparr>c_now = ''2024-01-01T00:00:09'', c_path = Some ''test_3.txt'', c_status = ''FAILED'',
          c_lines = None, c_word_count = None, c_error = Some ''gone''\<rparr>]
        (init_database None))
   = \<lparr>total = 2, ok = 1, failed = 1\<rparr>
   \<and> total (stats (upserts
        [\<lparr>c_now = ''2024-01-01T00:00:00'', c_path = Some ''test_1.txt'', c_status = ''OK'',
          c_lines = Some 2, c_word_count = Some 0, c_error = None\<rparr>,
         \<lparr>c_now = ''2024-01-01T00:00:09'', c_path = Some ''test_3.txt'', c_status = ''FAILED'',
          c_lines = None, c_word_count = None, c_error = Some ''gone''\<rparr>]
        (init_database None)))
     = ok (stats (upserts
        [\<lparr>c_now = ''2024-01-01T00:00:00'', c_path = Some ''test_1.txt'', c_status = ''OK'',
          c_lines = Some 2, c_word_count = Some 0, c_error = None\<rparr>,
         \<lparr>c_now = ''2024-01-01T00:00:09'', c_path = Some ''test_3.txt'', c_status = ''FAILED'',
          c_lines = None, c_word_count = None, c_error = Some ''gone''\<rparr>]
        (init_database None)))
     + failed (stats (upserts
        [\<lparr>c_now = ''2024-01-01T00:00:00'', c_path = Some ''test_1.txt'', c_status = ''OK'',
          c_lines = Some 2, c_word_count = Some 0, c_error = None\<rparr>,
         \<lparr>c_now = ''2024-01-01T00:00:09'', c_path = Some ''test_3.txt'', c_status = ''FAILED'',
          c_lines = None, c_word_count = None, c_error = Some ''gone''\<rparr>]
        (init_database None)))"
proof -
  let ?cs = "[\<lparr>c_now = ''2024-01-01T00:00:00'', c_path = Some ''test_1.txt'', c_status = ''OK'',
          c_lines = Some 2, c_word_count = Some 0, c_error = None\<rparr>,
         \<lparr>c_now = ''2024-01-01T00:00:09'', c_path = Some ''test_3.txt'', c_status = ''FAILED'',
          c_lines = None, c_word_count = None, c_error = Some ''gone''\<rparr>]"
  have v: "stats (upserts ?cs (init_database None)) = \<lparr>total = 2, ok = 1, failed = 1\<rparr>"
    by code_simp
  have h: "\<forall>c\<in>set ?cs. c_status c = ''OK'' \<or> c_status c = ''FAILED''"
    by simp
  from stats_total_is_ok_plus_failed [OF h] v show ?thesis by blast
qed

subsection \<open>Row ids grow with insertion\<close>

lemma set_outcome_row_id: "row_id (set_outcome st ls wc err pr r) = row_id r"
  by (simp add: set_outcome_def)

lemma sql_update_row_ids:
  "sql_update st ls wc err pr p t = Inr t' \<Longrightarrow>
   map row_id (table_rows t') = map row_id (table_rows t)"
  by (auto simp: sql_update_def Let_def set_outcome_row_id split: if_splits option.splits)

lemma sql_insert_ids_grow:
  assumes "sorted_wrt (<) (map row_id (table_rows t))"
    and "sql_insert p st ls wc err c pr t = Inr t'"
  shows "sorted_wrt (<) (map row_id (table_rows t'))"
proof -
  have above: "\<forall>x\<in>set (table_rows t). row_id x < next_rowid t"
    using next_rowid_above by blast
  from assms(2) obtain r where "table_rows t' = table_rows t @ [r]" "row_id r = next_rowid t"
    by (auto simp: sql_insert_def Let_def split: if_splits option.splits)
  with assms(1) above show ?thesis
    by (simp add: sorted_wrt_append)
qed

lemma inserting_ids_grow:
  assumes "sorted_wrt (<) (map row_id (table_rows t))"
    and "inserting now p st ls wc err t = Inr t'"
  shows "sorted_wrt (<) (map row_id (table_rows t'))"
proof (cases "sql_insert p st ls wc err (Some now) (if st = ''OK'' then Some now else None) t")
  case (Inr t'')
  with assms(2) have "t'' = t'" by (simp add: inserting_def)
  with sql_insert_ids_grow [OF assms(1) Inr] show ?thesis by simp
next
  case (Inl e)
  with assms(2) have "sql_update st ls wc err (if st = ''OK'' then Some now else None) p t = Inr t'"
    by (cases e) (simp_all add: inserting_def)
  from sql_update_row_ids [OF this] assms(1) show ?thesis by simp
qed

lemma upserts_ids_grow:
  "sorted_wrt (<) (map row_id (table_rows t)) \<Longrightarrow>
   sorted_wrt (<) (map row_id (table_rows (upserts cs t)))"
proof (induction cs arbitrary: t)
  case Nil
  then show ?case by (simp add: upserts_def)
next
  case (Cons c cs)
  have step: "sorted_wrt (<) (map row_id (table_rows (upsert t c)))"
  proof (cases "inserting (c_now c) (c_path c) (c_status c) (c_lines c) (c_word_count c)
      (c_error c) t")
    case (Inl e)
    with Cons.prems show ?thesis by (simp add: upsert_def)
  next
    case (Inr t')
    from inserting_ids_grow [OF Cons.prems Inr] Inr show ?thesis by (simp add: upsert_def)
  qed
  have "upserts (c # cs) t = upserts cs (upsert t c)"
    by (simp add: upserts_def)
  with Cons.IH [OF step] show ?case by simp
qed

subsection \<open>Recent records\<close>

text \<open>
  C7. For every table and every limit \<open>n\<close> from 0 to \<open>2^63 - 1\<close>, \<open>last_files\<close> returns at
  most \<open>n\<close> records: the rows of the table put in the order of falling row id and cut after
  the first \<open>n\<close>, each with its seven fields. Where the row ids grow along the rows, as
  they do in every table that \<open>inserting\<close> fills (\<open>upserts_ids_grow\<close>), this is the last
  \<open>n\<close> rows inserted, the latest first; a row that the UPDATE changed keeps its place.
\<close>

theorem last_files_by_row_id:
  assumes "0 \<le> n" and "n < 2 ^ 63"
  shows "\<exists>rs. last_files n t = Inr (map row_dict (take (nat n) rs)) \<and>
              mset rs = mset (table_rows t) \<and>
              sorted_wrt (\<lambda>a b. row_id b \<le> row_id a) rs \<and>
              (sorted_wrt (<) (map row_id (table_rows t)) \<longrightarrow> rs = rev (table_rows t))"
proof (intro exI conjI)
  show "last_files n t = Inr (map row_dict (take (nat n) (order_by_id_desc (table_rows t))))"
    using assms by (simp add: last_files_def bindable_def sql_limit_def)
  show "mset (order_by_id_desc (table_rows t)) = mset (table_rows t)"
    by (simp add: order_by_id_desc_def)
  have "sorted (map (\<lambda>r. - int (row_id r)) (order_by_id_desc (table_rows t)))"
    by (simp add: order_by_id_desc_def)
  then show "sorted_wrt (\<lambda>a b. row_id b \<le> row_id a) (order_by_id_desc (table_rows t))"
    by (simp add: sorted_map)
  show "sorted_wrt (<) (map row_id (table_rows t)) \<longrightarrow>
        order_by_id_desc (table_rows t) = rev (table_rows t)"
    by (simp add: order_by_id_desc_rev)
qed

theorem last_files_by_row_id_witness:
  "(0::int) \<le> 1 \<and> (1::int) < 2 ^ 63 \<and>
   last_files 1
     (upserts
        [\<lparr>c_now = ''2024-01-01T00:00:00'', c_path = Some ''test_1.txt'', c_status = ''OK'',
          c_lines = Some 2, c_word_count = Some 0, c_error = None\<rparr>,
         \<lparr>c_now = ''2024-01-01T00:00:09'', c_path = Some ''test_3.txt'', c_status = ''FAILED'',
          c_lines = None, c_word_count = None, c_error = Some ''gone''\<rparr>]
        (init_database None))
   = Inr [\<lparr>d_path = Some ''test_3.txt'', d_status = ''FAILED'', d_lines = None,
           d_word_count = None, d_error = Some ''gone'',
           d_created_at = Some ''2024-01-01T00:00:09'', d_processed_at = None\<rparr>]"
proof -
  let ?t = "upserts
        [\<lparr>c_now = ''2024-01-01T00:00:00'', c_path = Some ''test_1.txt'', c_status = ''OK'',
          c_lines = Some 2, c_word_count = Some 0, c_error = None\<rparr>,
         \<lparr>c_now = ''2024-01-01T00:00:09'', c_path = Some ''test_3.txt'', c_status = ''FAILED'',
          c_lines = None, c_word_count = None, c_error = Some ''gone''\<rparr>]
        (init_database None)"
  have h0: "(0::int) \<le> 1" and h1: "(1::int) < 2 ^ 63"
    by simp_all
  have rows: "table_rows ?t =
      [\<lparr>row_id = 1, path = Some ''test_1.txt'', status = ''OK'', lines = Some 2,
        word_count = Some 0, error = None, created_at = Some ''2024-01-01T00:00:00'',
        processed_at = Some ''2024-01-01T00:00:00''\<rparr>,
       \<lparr>row_id = 2, path = Some ''test_3.txt'', status = ''FAILED'', lines = None,
        word_count = None, error = Some ''gone'', created_at = Some ''2024-01-01T00:00:09'',
        processed_at = None\<rparr>]"
    by code_simp
  have grow: "sorted_wrt (<) (map row_id (table_rows ?t))"
    unfolding rows by simp
  from last_files_by_row_id [OF h0 h1, of ?t] grow
  have "last_files 1 ?t = Inr (map row_dict (take (nat 1) (rev (table_rows ?t))))"
    by auto
  then show ?thesis
    unfolding rows using h0 h1 by (simp add: row_dict_def)
qed

text \<open>
  C7 as first stated fails in three places. On a table that has a uniqueness constraint on
  \<open>path\<close>, \<open>test_1.txt\<close> is inserted, \<open>test_2.txt\<close> is inserted, and \<open>test_1.txt\<close> is
  written again, which updates its row in place: limit 1 returns the record of
  \<open>test_2.txt\<close>, not the one written last. With the limit \<open>-1\<close> the query returns every
  row, two rows here. With the limit \<open>2^63\<close> the call raises \<open>OverflowError\<close>.
\<close>

theorem last_files_not_by_update:
  "table_rows
     (upserts
        [\<lparr>c_now = ''2024-01-01T00:00:00'', c_path = Some ''test_1.txt'', c_status = ''OK'',
          c_lines = Some 2, c_word_count = Some 0, c_error = None\<rparr>,
         \<lparr>c_now = ''2024-01-01T00:00:05'', c_path = Some ''test_2.txt'', c_status = ''OK'',
          c_lines = Some 1, c_word_count = Some 0, c_error = None\<rparr>,
         \<lparr>c_now = ''2024-01-01T00:00:09'', c_path = Some ''test_1.txt'', c_status = ''FAILED'',
          c_lines = None, c_word_count = None, c_error = Some ''gone''\<rparr>]
        \<lparr>unique_columns = [Col_id, Col_path], table_rows = [], seq = 0\<rparr>)
   = [\<lparr>row_id = 1, path = Some ''test_1.txt'', status = ''FAILED'', lines = None,
       word_count = None, error = Some ''gone'', created_at = Some ''2024-01-01T00:00:00'',
       processed_at = None\<rparr>,
      \<lparr>row_id = 2, path = Some ''test_2.txt'', status = ''OK'', lines = Some 1,
       word_count = Some 0, error = None, created_at = Some ''2024-01-01T00:00:05'',
       processed_at = Some ''2024-01-01T00:00:05''\<rparr>]
   \<and> last_files 1
     (upserts
        [\<lparr>c_now = ''2024-01-01T00:00:00'', c_path = Some ''test_1.txt'', c_status = ''OK'',
          c_lines = Some 2, c_word_count = Some 0, c_error = None\<rparr>,
         \<lparr>c_now = ''2024-01-01T00:00:05'', c_path = Some ''test_2.txt'', c_status = ''OK'',
          c_lines = Some 1, c_word_count = Some 0, c_error = None\<rparr>,
         \<lparr>c_now = ''2024-01-01T00:00:09'', c_path = Some ''test_1.txt'', c_status = ''FAILED'',
          c_lines = None, c_word_count = None, c_error = Some ''gone''\<rparr>]
        \<lparr>unique_columns = [Col_id, Col_path], table_rows = [], seq = 0\<rparr>)
   = Inr [\<lparr>d_path = Some ''test_2.txt'', d_status = ''OK'', d_lines = Some 1,
           d_word_count = Some 0, d_error = None,
           d_created_at = Some ''2024-01-01T00:00:05'',
           d_processed_at = Some ''2024-01-01T00:00:05''\<rparr>]
   \<and> last_files (- 1)
     (upserts
        [\<lparr>c_now = ''2024-01-01T00:00:00'', c_path = Some ''test_1.txt'', c_status = ''OK'',
          c_lines = Some 2, c_word_count = Some 0, c_error = None\<rparr>,
         \<lparr>c_now = ''2024-01-01T00:00:05'', c_path = Some ''test_2.txt'', c_status = ''OK'',
          c_lines = Some 1, c_word_count = Some 0, c_error = None\<rparr>]
        (init_database None))
   = Inr [\<lparr>d_path = Some ''test_2.txt'', d_status = ''OK'', d_lines = Some 1,
           d_word_count = Some 0, d_error = None,
           d_created_at = Some ''2024-01-01T00:00:05'',
           d_processed_at = Some ''2024-01-01T00:00:05''\<rparr>,
          \<lparr>d_path = Some ''test_1.txt'', d_status = ''OK'', d_lines = Some 2,
           d_word_count = Some 0, d_error = None,
           d_created_at = Some ''2024-01-01T00:00:00'',
           d_processed_at = Some ''2024-01-01T00:00:00''\<rparr>]
   \<and> last_files (2 ^ 63) (init_database None) = Inl too_large"
  by code_simp

section \<open>The worker on a file it cannot read\<close>

text \<open>
  On the table that \<open>init_database\<close> creates, with a row id left: the pass that takes a
  path whose file cannot be opened, read or decoded adds a row with status FAILED, \<open>str(e)\<close>
  as error and NULL for lines, word_count and processed_at, calls \<open>task_done\<close> once, and
  leaves the rest of the queue as it was.
\<close>

lemma worker_pass_failure_row:
  assumes "entries (file_queue s) = p # rest"
    and "count_file (files w) p = Inl e"
    and "0 < unfinished_tasks (file_queue s)"
    and "unique_columns (files_db s) = [Col_id]"
    and "int (next_rowid (files_db s)) \<le> max_rowid"
  shows "worker_pass w s =
     \<lparr>file_queue = \<lparr>entries = rest, unfinished_tasks = unfinished_tasks (file_queue s) - 1\<rparr>,
      files_db = (files_db s)
        \<lparr>table_rows := table_rows (files_db s) @
           [\<lparr>row_id = next_rowid (files_db s), path = p, status = ''FAILED'', lines = None,
             word_count = None, error = Some (str e), created_at = Some (clock w),
             processed_at = None\<rparr>],
         seq := next_rowid (files_db s)\<rparr>\<rparr>"
proof -
  have ins: "inserting (clock w) p ''FAILED'' None None (Some (str e)) (files_db s) =
     Inr ((files_db s)
        \<lparr>table_rows := table_rows (files_db s) @
           [\<lparr>row_id = next_rowid (files_db s), path = p, status = ''FAILED'', lines = None,
             word_count = None, error = Some (str e), created_at = Some (clock w),
             processed_at = None\<rparr>],
         seq := next_rowid (files_db s)\<rparr>)"
    using inserting_plain [OF assms(4) _ _ assms(5), of None None "clock w" p "''FAILED''"
        "Some (str e)"]
    by (simp add: bindable_def)
  show ?thesis
    using assms(1,2,3) ins
    by (simp add: worker_pass_def get_def process_ok_def process_failed_def acknowledge_def
        task_done_def)
qed

text \<open>
  C6. \<open>test_1.txt\<close> is queued twice. At the first pass the file holds \<open>a b\nc\n\<close> and an OK
  row is written. Before the second pass the file is deleted, so \<open>open\<close> raises: the pass
  adds a FAILED row with the message, and the row of the first pass stays, with status OK
  and with lines, word_count and processed_at set. The record of the path is not replaced
  by the failure.
\<close>

theorem worker_failure_keeps_old_row:
  "worker_pass
     \<lparr>clock = ''2024-01-01T00:00:09'',
      files = (\<lambda>p. Open_fails ''[Errno 2] No such file or directory: test_1.txt'')\<rparr>
     (worker_pass
        \<lparr>clock = ''2024-01-01T00:00:00'', files = (\<lambda>p. Text ''a b\<newline>c\<newline>'')\<rparr>
        (started\<lparr>file_queue := put (Some ''test_1.txt'') (put (Some ''test_1.txt'') empty_queue)\<rparr>))
   = \<lparr>file_queue = empty_queue,
      files_db =
        \<lparr>unique_columns = [Col_id],
         table_rows =
           [\<lparr>row_id = 1, path = Some ''test_1.txt'', status = ''OK'', lines = Some 2,
             word_count = Some 0, error = None, created_at = Some ''2024-01-01T00:00:00'',
             processed_at = Some ''2024-01-01T00:00:00''\<rparr>,
            \<lparr>row_id = 2, path = Some ''test_1.txt'', status = ''FAILED'', lines = None,
             word_count = None,
             error = Some ''[Errno 2] No such file or directory: test_1.txt'',
             created_at = Some ''2024-01-01T00:00:09'', processed_at = None\<rparr>],
         seq = 2\<rparr>\<rparr>"
  by code_simp

end
